theory Spec2Isabelle
  imports Main "HOL-Library.Char_ord" "HOL-Library.List_Lexorder"
begin

section \<open>Strings and the string utilities used by the test runner\<close>

text \<open>
  A \<open>std::string\<close> is a \<open>string\<close> (a list of bytes). \<open>std::sort\<close> on a
  \<open>std::vector<std::string>\<close> orders by \<open>operator<\<close>, the lexicographic order on
  unsigned bytes; that is the order \<open>List_Lexorder\<close> puts on \<open>char list\<close> over the
  byte order of \<open>Char_ord\<close>.
\<close>

definition isspace :: "char \<Rightarrow> bool" where
  \<comment> \<open>\<open>std::isspace\<close> in the C locale: space, \<open>\t\<close>, \<open>\n\<close>, \<open>\v\<close>, \<open>\f\<close>, \<open>\r\<close>.\<close>
  "isspace c = (c = CHR '' '' \<or> c = CHR 0x09 \<or> c = CHR 0x0A \<or> c = CHR 0x0B
                \<or> c = CHR 0x0C \<or> c = CHR 0x0D)"

definition RTrim :: "string \<Rightarrow> string" where
  \<comment> \<open>Modelled from the spec: \<open>bustub::StringUtil::RTrim\<close> (common/util/string_util.h is not
      among the sources). Section 4.2: "right-trim trailing whitespace from each line".\<close>
  "RTrim str = rev (dropWhile isspace (rev str))"

definition LTrim :: "string \<Rightarrow> string" where
  \<comment> \<open>Modelled from the spec: \<open>bustub::StringUtil::LTrim\<close> (common/util/string_util.h is not
      among the sources): the mirror image of \<open>RTrim\<close>, it removes leading whitespace.\<close>
  "LTrim str = dropWhile isspace str"

definition StartsWith :: "string \<Rightarrow> string \<Rightarrow> bool" where
  \<comment> \<open>Modelled from the spec: \<open>bustub::StringUtil::StartsWith(str, prefix)\<close>
      (common/util/string_util.h is not among the sources). Section 2: a directive is
      recognised by its prefix.\<close>
  "StartsWith str pre = (take (length pre) str = pre)"

fun str_find :: "string \<Rightarrow> string \<Rightarrow> nat option" where
  \<comment> \<open>\<open>std::string::find(needle)\<close>: the position of the first occurrence, \<open>None\<close> for
      \<open>npos\<close>.\<close>
  "str_find [] needle = (if needle = [] then Some 0 else None)"
| "str_find (c # cs) needle =
     (if StartsWith (c # cs) needle then Some 0
      else map_option Suc (str_find cs needle))"

definition Contains :: "string \<Rightarrow> string \<Rightarrow> bool" where
  \<comment> \<open>Modelled from the spec: \<open>bustub::StringUtil::Contains(haystack, needle)\<close>
      (common/util/string_util.h is not among the sources). Section 4.1: "plan text must
      contain an index-scan node".\<close>
  "Contains haystack needle = (str_find haystack needle \<noteq> None)"

definition ContainsAfter :: "string \<Rightarrow> string \<Rightarrow> string \<Rightarrow> bool" where
  \<comment> \<open>Modelled from the spec: \<open>bustub::StringUtil::ContainsAfter(keyword, haystack, needle)\<close>
      (common/util/string_util.h is not among the sources). Section 4.1: "a filter node
      appearing after the optimizer-plan marker": the needle is searched from the first
      occurrence of the keyword on.\<close>
  "ContainsAfter keyword haystack needle =
     (case str_find haystack keyword of
        None \<Rightarrow> False
      | Some pos \<Rightarrow> str_find (drop pos haystack) needle \<noteq> None)"

function Split :: "string \<Rightarrow> string \<Rightarrow> string list" where
  \<comment> \<open>Modelled from the spec: \<open>bustub::StringUtil::Split(input, split)\<close> with a string
      separator (common/util/string_util.h is not among the sources). Section 4.1 has plan
      texts and directives "split" on a marker into "fragments". The fragments are the
      non-empty pieces between occurrences of the separator, found left to right: the
      driver's own test \<open>!x.empty() && !x[0].empty()\<close> on \<open>Split(opt, "explain:")\<close>
      reaches the options of \<open>explain:<options>\<close> as \<open>x[0]\<close>, so the empty piece before a
      leading separator is not a fragment. Every call of the driver passes a non-empty
      literal separator; for the empty separator the model stops after the first piece.\<close>
  "Split input split =
     (case str_find input split of
        None \<Rightarrow> (if input = [] then [] else [input])
      | Some next \<Rightarrow>
          (if take next input = [] then [] else [take next input]) @
          (if split = [] then []
           else Split (drop (next + length split) input) split))"
  by pat_completeness auto
termination
proof -
  have found: "input \<noteq> []" if "str_find input split = Some i" "split \<noteq> []"
    for input split :: string and i :: nat
    using that by (cases input) auto
  show ?thesis
  proof (relation "measure (\<lambda>(input, split). length input)")
    show "wf (measure (\<lambda>(input, split). length input))" by simp
  next
    fix input split :: string and x2 :: nat
    assume f: "str_find input split = Some x2" and ne: "split \<noteq> []"
    from found [OF f ne] have "input \<noteq> []" .
    with ne show "((drop (x2 + length split) input, split), (input, split))
        \<in> measure (\<lambda>(input, split). length input)"
      by (cases split) auto
  qed
qed

declare Split.simps [simp del]

function Count :: "string \<Rightarrow> string \<Rightarrow> nat" where
  \<comment> \<open>Modelled from the spec: \<open>bustub::StringUtil::Count(haystack, needle)\<close>
      (common/util/string_util.h is not among the sources). Section 4.1 counts the
      "comma-delimited entries" of a column list: the number of occurrences of the needle,
      found left to right without overlap. The driver's only needle is the two bytes
      \<open>",\<close>, which cannot overlap itself.\<close>
  "Count haystack needle =
     (case str_find haystack needle of
        None \<Rightarrow> 0
      | Some pos \<Rightarrow>
          (if needle = [] then 0
           else Suc (Count (drop (pos + length needle) haystack) needle)))"
  by pat_completeness auto
termination
proof -
  have found: "haystack \<noteq> []" if "str_find haystack needle = Some i" "needle \<noteq> []"
    for haystack needle :: string and i :: nat
    using that by (cases haystack) auto
  show ?thesis
  proof (relation "measure (\<lambda>(haystack, needle). length haystack)")
    show "wf (measure (\<lambda>(haystack, needle). length haystack))" by simp
  next
    fix haystack needle :: string and x2 :: nat
    assume f: "str_find haystack needle = Some x2" and ne: "needle \<noteq> []"
    from found [OF f ne] have "haystack \<noteq> []" .
    with ne show "((drop (x2 + length needle) haystack, needle), (haystack, needle))
        \<in> measure (\<lambda>(haystack, needle). length haystack)"
      by (cases needle) auto
  qed
qed

declare Count.simps [simp del]

section \<open>The result comparator\<close>

subsection \<open>SplitLines\<close>

definition getline :: "string \<Rightarrow> (string \<times> string) option" where
  \<comment> \<open>\<open>std::getline(linestream, line, '\n')\<close> on the unread rest of the stream: it fails
      (\<open>None\<close>) when nothing is left; otherwise it extracts up to the next \<open>\n\<close>, which
      it consumes, or up to the end.\<close>
  "getline linestream =
     (if linestream = [] then None
      else Some (takeWhile (\<lambda>c. c \<noteq> CHR 0x0A) linestream,
                 drop 1 (dropWhile (\<lambda>c. c \<noteq> CHR 0x0A) linestream)))"

function SplitLines_loop :: "string \<Rightarrow> string list \<Rightarrow> string list" where
  \<comment> \<open>The \<open>while (std::getline(...))\<close> loop of \<open>SplitLines\<close>; \<open>result\<close> is the vector
      built so far.\<close>
  "SplitLines_loop linestream result =
     (case getline linestream of
        None \<Rightarrow> result
      | Some (line, rest) \<Rightarrow>
          (let line' = RTrim line
           in if line' \<noteq> [] then SplitLines_loop rest (result @ [line'])
              else SplitLines_loop rest result))"
  by pat_completeness auto
termination
proof -
  have shorter: "length rest < length s" if g: "getline s = Some (line, rest)"
    for s line rest :: string
  proof -
    from g have ne: "s \<noteq> []" and r: "rest = drop 1 (dropWhile (\<lambda>c. c \<noteq> CHR 0x0A) s)"
      by (auto simp: getline_def split: if_splits)
    have "length (dropWhile (\<lambda>c. c \<noteq> CHR 0x0A) s) \<le> length s"
      by (rule length_dropWhile_le)
    with ne r show ?thesis
      by (cases "dropWhile (\<lambda>c. c \<noteq> CHR 0x0A) s") auto
  qed
  show ?thesis
    by (relation "measure (\<lambda>(linestream, result). length linestream)")
       (auto dest: shorter)
qed

declare SplitLines_loop.simps [simp del]

definition SplitLines :: "string \<Rightarrow> string list" where
  "SplitLines lines = SplitLines_loop lines []"

subsection \<open>ResultCompare\<close>

datatype SortMode = NOSORT | ROWSORT
  \<comment> \<open>\<open>bustub::SortMode\<close>; the spec calls the two modes NONE and ROW_SORT.\<close>

datatype exn =
    Exception string
  | NotImplementedException string
  | std_invalid_argument string
  | std_out_of_range string
  | std_exception string
  \<comment> \<open>What a \<open>throw\<close> carries, with its message: \<open>bustub::Exception\<close> (and whatever
      the engine derives from it), \<open>bustub::NotImplementedException\<close>, the two exceptions
      of \<open>std::stoi\<close>, and any other exception of the standard library.\<close>

record filesystem =
  contents :: "string \<rightharpoonup> string"
  writable :: "string \<Rightarrow> bool"

definition write_lines :: "string list \<Rightarrow> string" where
  \<comment> \<open>\<open>for (const auto &x : lines) r << x << std::endl;\<close>\<close>
  "write_lines ls = concat (map (\<lambda>x. x @ [CHR 0x0A]) ls)"

definition dump_file :: "string \<Rightarrow> string list \<Rightarrow> filesystem \<Rightarrow> exn + filesystem" where
  \<comment> \<open>\<open>std::ofstream f(name, out | trunc)\<close>, the check \<open>if (!f) throw\<close>, the lines and
      \<open>close\<close>.\<close>
  "dump_file name ls fs =
     (if \<not> writable fs name then Inl (Exception ''cannot open file'')
      else Inr (fs\<lparr>contents := (contents fs)(name \<mapsto> write_lines ls)\<rparr>))"

definition ResultCompare ::
  "string \<Rightarrow> string \<Rightarrow> SortMode \<Rightarrow> bool \<Rightarrow> filesystem \<Rightarrow> (exn + bool) \<times> filesystem" where
  "ResultCompare produced_result expected_result sort_mode dump_diff fs =
     (let a_lines = SplitLines produced_result;
          b_lines = SplitLines expected_result;
          a_lines = (if sort_mode = ROWSORT then sort a_lines else a_lines);
          b_lines = (if sort_mode = ROWSORT then sort b_lines else b_lines);
          cmp_result = (a_lines = b_lines)
      in if \<not> cmp_result \<and> dump_diff then
           (case dump_file ''result.log'' a_lines fs of
              Inl e \<Rightarrow> (Inl e, fs)
            | Inr fs1 \<Rightarrow>
                (case dump_file ''expected.log'' b_lines fs1 of
                   Inl e \<Rightarrow> (Inl e, fs1)
                 | Inr fs2 \<Rightarrow> (Inr cmp_result, fs2)))
         else (Inr cmp_result, fs))"

section \<open>The directive processor\<close>

subsection \<open>std::stoi\<close>

definition is_digit :: "char \<Rightarrow> bool" where
  "is_digit c = (CHR ''0'' \<le> c \<and> c \<le> CHR ''9'')"

definition digits_val :: "string \<Rightarrow> nat" where
  "digits_val ds = foldl (\<lambda>acc c. 10 * acc + (of_char c - 48)) 0 ds"

definition stoi :: "string \<Rightarrow> exn + int" where
  \<comment> \<open>\<open>std::stoi(str)\<close>, base 10: leading whitespace is skipped, one sign is optional,
      the longest run of digits is converted and anything after it is ignored; no digit
      raises \<open>std::invalid_argument\<close>, a value outside \<open>int\<close> (32 bits) raises
      \<open>std::out_of_range\<close>.\<close>
  "stoi str =
     (let s = dropWhile isspace str;
          neg = (s \<noteq> [] \<and> hd s = CHR ''-'');
          s' = (if s \<noteq> [] \<and> (hd s = CHR ''-'' \<or> hd s = CHR ''+'') then tl s else s);
          ds = takeWhile is_digit s';
          v = (if neg then - int (digits_val ds) else int (digits_val ds))
      in if ds = [] then Inl (std_invalid_argument ''stoi'')
         else if v < - (2 ^ 31) \<or> 2 ^ 31 - 1 < v then Inl (std_out_of_range ''stoi'')
         else Inr v)"

definition size_t_of_int :: "int \<Rightarrow> nat" where
  \<comment> \<open>\<open>static_cast<size_t>(v)\<close> for an \<open>int\<close> and a 64-bit \<open>size_t\<close>: a negative
      value wraps around.\<close>
  "size_t_of_int v = nat (v mod 2 ^ 64)"

subsection \<open>The session\<close>

datatype CheckOption = ENABLE_NLJ_CHECK | ENABLE_TOPN_CHECK

datatype ostream = stringstream | std_cout

datatype ResultWriter =
    NoopWriter
  | SimpleStreamWriter ostream "bool option" "string option"
  \<comment> \<open>\<open>SimpleStreamWriter(stream[, disable_header[, separator]])\<close>; \<open>None\<close> is an argument
      the call leaves to its default.\<close>

abbreviation statement_writer :: ResultWriter where
  \<comment> \<open>\<open>SimpleStreamWriter(result, true)\<close>, the writer of a statement's execution\<close>
  "statement_writer \<equiv> SimpleStreamWriter stringstream (Some True) None"

abbreviation query_writer :: ResultWriter where
  \<comment> \<open>\<open>SimpleStreamWriter(result, true, " ")\<close>, the writer of a query's execution\<close>
  "query_writer \<equiv> SimpleStreamWriter stringstream (Some True) (Some '' '')"

abbreviation plan_writer :: ResultWriter where
  \<comment> \<open>\<open>SimpleStreamWriter(result)\<close>, the writer that captures a plan\<close>
  "plan_writer \<equiv> SimpleStreamWriter stringstream None None"

abbreviation cout_writer :: ResultWriter where
  \<comment> \<open>\<open>SimpleStreamWriter(std::cout)\<close>, the writer of the \<open>explain\<close> directive\<close>
  "cout_writer \<equiv> SimpleStreamWriter std_cout None None"

record 's BusTubInstance =
  ExecuteSql :: "string \<Rightarrow> ResultWriter \<Rightarrow> CheckOption set option \<Rightarrow> 's
                 \<Rightarrow> (exn + string) \<times> 's"
  GetNumWrites :: "'s \<Rightarrow> int"
  GetNumDeletes :: "'s \<Rightarrow> int"

text \<open>
  The engine is a black box (\<open>common/bustub_instance.h\<close> is not among the sources): a
  session in state \<open>'s\<close> answers \<open>ExecuteSql(sql, writer, check_options)\<close> with the text
  it wrote through the writer, or throws; either way it moves to a new state. The third
  argument is \<open>None\<close> where the call passes no \<open>check_options\<close>. What the driver prints to
  standard output is not part of the model.
\<close>

subsection \<open>ensure:column-pruned\<close>

definition quote_comma :: string where
  \<comment> \<open>The literal \<open>"\","\<close>: a double quote and a comma.\<close>
  "quote_comma = [CHR 0x22, CHR 0x2C]"

fun column_pruned_lines :: "string list \<Rightarrow> nat \<Rightarrow> nat \<Rightarrow> bool" where
  \<comment> \<open>The \<open>for (auto &line : lines)\<close> loop; \<open>False\<close> is \<open>return false\<close>, and the
      \<open>break\<close> after the first \<open>Agg\<close> line leaves the loop with the directive passed.\<close>
  "column_pruned_lines [] expected_cols_proj expected_cols_agg = True"
| "column_pruned_lines (line # lines) expected_cols_proj expected_cols_agg =
     (let line = LTrim line
      in if StartsWith line ''Agg'' then
           (let cols = Split line ''],''
            in if length cols \<noteq> 3 then False
               else if Count (cols ! 0) quote_comma + 1 > expected_cols_agg then False
               else if Count (cols ! 1) quote_comma + 1 > expected_cols_agg then False
               else True)
         else if StartsWith line ''Projection''
                 \<and> Count line quote_comma + 1 > expected_cols_proj then False
         else column_pruned_lines lines expected_cols_proj expected_cols_agg)"

definition column_pruned :: "string \<Rightarrow> string \<Rightarrow> exn + bool" where
  "column_pruned opt result =
     (let args = Split opt '':''
      in if length args \<noteq> 4 then
           Inl (NotImplementedException (''unsupported extra option: '' @ opt))
         else
           (case stoi (args ! 2) of
              Inl e \<Rightarrow> Inl e
            | Inr expected_cols_proj \<Rightarrow>
                (case stoi (args ! 3) of
                   Inl e \<Rightarrow> Inl e
                 | Inr expected_cols_agg \<Rightarrow>
                     Inr (column_pruned_lines (Split result [CHR 0x0A])
                            (size_t_of_int expected_cols_proj)
                            (size_t_of_int expected_cols_agg)))))"

subsection \<open>The ensure: family\<close>

definition check_ensure ::
  "string \<Rightarrow> string \<Rightarrow> CheckOption set \<Rightarrow> exn + (bool \<times> CheckOption set)" where
  \<comment> \<open>The chain of \<open>if (opt == ...)\<close> under \<open>StartsWith(opt, "ensure:")\<close>; \<open>result\<close> is the
      plan text. \<open>Inr (False, _)\<close> is \<open>return false\<close>, \<open>Inr (True, _)\<close> falls through to
      the end of the loop body.\<close>
  "check_ensure opt result check_options =
     (if opt = ''ensure:index_scan'' then
        (if \<not> Contains result ''IndexScan'' then Inr (False, check_options)
         else Inr (True, check_options))
      else if opt = ''ensure:seq_scan'' then
        (if Contains result ''IndexScan'' \<or> ContainsAfter ''OPTIMIZER'' result ''Filter''
         then Inr (False, check_options) else Inr (True, check_options))
      else if opt = ''ensure:hash_join'' then
        (if length (Split result ''HashJoin'') \<noteq> 2 \<and> \<not> Contains result ''Filter''
         then Inr (False, check_options) else Inr (True, check_options))
      else if opt = ''ensure:hash_join_no_filter'' then
        (if length (Split result ''HashJoin'') \<noteq> 2
            \<or> ContainsAfter ''OPTIMIZER'' result ''Filter''
         then Inr (False, check_options) else Inr (True, check_options))
      else if opt = ''ensure:hash_join*2'' then
        (if length (Split result ''HashJoin'') \<noteq> 3 \<and> \<not> Contains result ''Filter''
         then Inr (False, check_options) else Inr (True, check_options))
      else if opt = ''ensure:hash_join*3'' then
        (if length (Split result ''HashJoin'') \<noteq> 4 \<and> \<not> Contains result ''Filter''
         then Inr (False, check_options) else Inr (True, check_options))
      else if opt = ''ensure:topn'' then
        (if \<not> Contains result ''TopN'' then Inr (False, check_options)
         else Inr (True, insert ENABLE_TOPN_CHECK check_options))
      else if opt = ''ensure:topn*2'' then
        (if length (Split result ''TopN'') \<noteq> 3 then Inr (False, check_options)
         else Inr (True, insert ENABLE_TOPN_CHECK check_options))
      else if opt = ''ensure:index_join'' then
        (if \<not> Contains result ''NestedIndexJoin'' then Inr (False, check_options)
         else Inr (True, check_options))
      else if opt = ''ensure:nlj_init_check'' then
        (if \<not> Contains result ''NestedLoopJoin'' then Inr (False, check_options)
         else Inr (True, insert ENABLE_NLJ_CHECK check_options))
      else if StartsWith opt ''ensure:column-pruned'' then
        (case column_pruned opt result of
           Inl e \<Rightarrow> Inl e
         | Inr ok \<Rightarrow> Inr (ok, check_options))
      else Inl (NotImplementedException (''unsupported extra option: '' @ opt)))"

subsection \<open>timing\<close>

fun timing_args :: "string list \<Rightarrow> int \<Rightarrow> string \<Rightarrow> exn + (int \<times> string)" where
  \<comment> \<open>The loop over \<open>args.cbegin() + 1 .. args.cend()\<close>.\<close>
  "timing_args [] repeat label = Inr (repeat, label)"
| "timing_args (a # as) repeat label =
     (if StartsWith a ''x'' then
        (case stoi (drop 1 a) of
           Inl e \<Rightarrow> Inl e
         | Inr v \<Rightarrow> timing_args as v label)
      else if StartsWith a ''.'' then timing_args as repeat (drop 1 a)
      else Inl (NotImplementedException (''unsupported arg: '' @ a)))"

fun timing_runs :: "'s BusTubInstance \<Rightarrow> string \<Rightarrow> nat \<Rightarrow> 's \<Rightarrow> exn option \<times> 's" where
  \<comment> \<open>\<open>for (int i = 0; i < repeat; i++) instance.ExecuteSql(sql, NoopWriter())\<close>; the
      measured durations are only printed.\<close>
  "timing_runs instance sql 0 s = (None, s)"
| "timing_runs instance sql (Suc n) s =
     (case ExecuteSql instance sql NoopWriter None s of
        (Inl e, s') \<Rightarrow> (Some e, s')
      | (Inr out, s') \<Rightarrow> timing_runs instance sql n s')"

subsection \<open>ProcessExtraOptions\<close>

definition explain_sql :: "string \<Rightarrow> string \<Rightarrow> string" where
  \<comment> \<open>The statement the \<open>explain\<close> branch sends to the session.\<close>
  "explain_sql opt sql =
     (let x = Split opt ''explain:''
      in if x \<noteq> [] \<and> x ! 0 \<noteq> [] then ''explain ('' @ x ! 0 @ '') '' @ sql
         else ''explain '' @ sql)"

definition process_option ::
  "'s BusTubInstance \<Rightarrow> string \<Rightarrow> string \<Rightarrow> CheckOption set \<Rightarrow> 's
   \<Rightarrow> (exn + bool) \<times> CheckOption set \<times> 's" where
  \<comment> \<open>One pass through the body of \<open>for (const auto &opt : extra_options)\<close>: \<open>Inl e\<close> is
      an exception leaving \<open>ProcessExtraOptions\<close>, \<open>Inr False\<close> is \<open>return false\<close>,
      \<open>Inr True\<close> reaches the end of the body.\<close>
  "process_option instance sql opt check_options s =
     (if StartsWith opt ''ensure:'' then
        (case ExecuteSql instance (''explain (o) '' @ sql) plan_writer None s of
           (Inl e, s') \<Rightarrow> (Inl e, check_options, s')
         | (Inr result, s') \<Rightarrow>
             (case check_ensure opt result check_options of
                Inl e \<Rightarrow> (Inl e, check_options, s')
              | Inr (ok, check_options') \<Rightarrow> (Inr ok, check_options', s')))
      else if StartsWith opt ''timing'' then
        (case timing_args (drop 1 (Split opt '':'')) 1 [] of
           Inl e \<Rightarrow> (Inl e, check_options, s)
         | Inr (repeat, label) \<Rightarrow>
             (case timing_runs instance sql (nat repeat) s of
                (Some e, s') \<Rightarrow> (Inl e, check_options, s')
              | (None, s') \<Rightarrow> (Inr True, check_options, s')))
      else if StartsWith opt ''explain'' then
        (case ExecuteSql instance (explain_sql opt sql) cout_writer None s of
           (Inl e, s') \<Rightarrow> (Inl e, check_options, s')
         | (Inr out, s') \<Rightarrow> (Inr True, check_options, s'))
      else (Inl (NotImplementedException (''unsupported extra option: '' @ opt)),
            check_options, s))"

fun ProcessExtraOptions ::
  "string \<Rightarrow> 's BusTubInstance \<Rightarrow> string list \<Rightarrow> bool \<Rightarrow> CheckOption set \<Rightarrow> 's
   \<Rightarrow> (exn + bool) \<times> CheckOption set \<times> 's" where
  \<comment> \<open>\<open>check_options\<close> is the set behind the shared pointer, passed in and returned as
      the directives left it.\<close>
  "ProcessExtraOptions sql instance [] verbose check_options s =
     (Inr True, check_options, s)"
| "ProcessExtraOptions sql instance (opt # extra_options) verbose check_options s =
     (case process_option instance sql opt check_options s of
        (Inl e, check_options', s') \<Rightarrow> (Inl e, check_options', s')
      | (Inr ok, check_options', s') \<Rightarrow>
          (if ok then ProcessExtraOptions sql instance extra_options verbose check_options' s'
           else (Inr False, check_options', s')))"

section \<open>The execution driver\<close>

datatype Record =
    HaltRecord string
  | SleepRecord string nat
  | StatementRecord string bool string "string list"
  | QueryRecord string SortMode string string "string list"
  \<comment> \<open>\<open>bustub::Record\<close> and its subclasses, told apart by \<open>type_\<close>. The fields, in
      order: \<open>HaltRecord loc_\<close>, \<open>SleepRecord loc_ seconds_\<close>,
      \<open>StatementRecord loc_ is_error_ sql_ extra_options_\<close>,
      \<open>QueryRecord loc_ sort_mode_ sql_ expected_result_ extra_options_\<close>. The driver's
      \<open>default:\<close> branch has no record kind of section 3 to reach it.\<close>

datatype exit_status =
    Return int
  | Terminate exn
  \<comment> \<open>\<open>return n\<close> from \<open>main\<close>, or an exception no handler of \<open>main\<close> catches
      (\<open>std::terminate\<close>).\<close>

record 's world =
  session :: 's
  files :: filesystem

fun is_bustub_Exception :: "exn \<Rightarrow> bool" where
  \<comment> \<open>Modelled from the spec: the class hierarchy of \<open>common/exception.h\<close>, which is not
      among the sources. Section 9 has the source use one throwing mechanism "for both
      expected-control-flow (statement expected to error) and for true fatal errors":
      \<open>bustub::NotImplementedException\<close> is a \<open>bustub::Exception\<close>, which
      \<open>catch (bustub::Exception &ex)\<close> catches; the exceptions of the standard library
      are not.\<close>
  "is_bustub_Exception (Exception msg) = True"
| "is_bustub_Exception (NotImplementedException msg) = True"
| "is_bustub_Exception (std_invalid_argument msg) = False"
| "is_bustub_Exception (std_out_of_range msg) = False"
| "is_bustub_Exception (std_exception msg) = False"

definition statement_catch ::
  "bool \<Rightarrow> exn \<Rightarrow> 's world \<Rightarrow> exit_status option \<times> 's world" where
  \<comment> \<open>The handler of the \<open>STATEMENT\<close> case: \<open>None\<close> goes on to \<open>continue\<close>.\<close>
  "statement_catch is_error ex w =
     (if is_bustub_Exception ex then
        (if \<not> is_error then (Some (Return 1), w) else (None, w))
      else (Some (Terminate ex), w))"

definition query_catch :: "exn \<Rightarrow> 's world \<Rightarrow> exit_status option \<times> 's world" where
  \<comment> \<open>The handler of the \<open>QUERY\<close> case.\<close>
  "query_catch ex w =
     (if is_bustub_Exception ex then (Some (Return 1), w)
      else (Some (Terminate ex), w))"

fun run_record ::
  "'s BusTubInstance \<Rightarrow> bool \<Rightarrow> bool \<Rightarrow> Record \<Rightarrow> 's world
   \<Rightarrow> exit_status option \<times> 's world" where
  \<comment> \<open>The body of \<open>for (const auto &record : result)\<close>: \<open>None\<close> is \<open>continue\<close>,
      \<open>Some x\<close> leaves \<open>main\<close>. Every pass starts from a new, empty \<open>CheckOptions\<close>.\<close>
  "run_record bustub verbose diff (HaltRecord loc) w = (Some (Return 0), w)"
| "run_record bustub verbose diff (SleepRecord loc seconds) w = (None, w)"
| "run_record bustub verbose diff (StatementRecord loc is_error sql extra_options) w =
     (case ProcessExtraOptions sql bustub extra_options verbose {} (session w) of
        (Inl ex, check_options, s1) \<Rightarrow> statement_catch is_error ex (w\<lparr>session := s1\<rparr>)
      | (Inr ok, check_options, s1) \<Rightarrow>
          (if \<not> ok then (Some (Return 1), w\<lparr>session := s1\<rparr>)
           else
             (case ExecuteSql bustub sql statement_writer (Some check_options) s1 of
                (Inl ex, s2) \<Rightarrow> statement_catch is_error ex (w\<lparr>session := s2\<rparr>)
              | (Inr result, s2) \<Rightarrow>
                  (if is_error then (Some (Return 1), w\<lparr>session := s2\<rparr>)
                   else (None, w\<lparr>session := s2\<rparr>)))))"
| "run_record bustub verbose diff (QueryRecord loc sort_mode sql expected_result extra_options) w =
     (case ProcessExtraOptions sql bustub extra_options verbose {} (session w) of
        (Inl ex, check_options, s1) \<Rightarrow> query_catch ex (w\<lparr>session := s1\<rparr>)
      | (Inr ok, check_options, s1) \<Rightarrow>
          (if \<not> ok then (Some (Return 1), w\<lparr>session := s1\<rparr>)
           else
             (case ExecuteSql bustub sql query_writer (Some check_options) s1 of
                (Inl ex, s2) \<Rightarrow> query_catch ex (w\<lparr>session := s2\<rparr>)
              | (Inr result, s2) \<Rightarrow>
                  (case ResultCompare result expected_result sort_mode diff (files w) of
                     (Inl ex, fs) \<Rightarrow> query_catch ex (w\<lparr>session := s2, files := fs\<rparr>)
                   | (Inr eq, fs) \<Rightarrow>
                       (if \<not> eq then (Some (Return 1), w\<lparr>session := s2, files := fs\<rparr>)
                        else (None, w\<lparr>session := s2, files := fs\<rparr>))))))"

fun main_loop ::
  "'s BusTubInstance \<Rightarrow> bool \<Rightarrow> bool \<Rightarrow> Record list \<Rightarrow> 's world
   \<Rightarrow> exit_status option \<times> 's world" where
  \<comment> \<open>\<open>for (const auto &record : result)\<close>: \<open>None\<close> when the loop runs to its end.\<close>
  "main_loop bustub verbose diff [] w = (None, w)"
| "main_loop bustub verbose diff (record # result) w =
     (case run_record bustub verbose diff record w of
        (Some x, w') \<Rightarrow> (Some x, w')
      | (None, w') \<Rightarrow> main_loop bustub verbose diff result w')"

record program_args =
  arg_verbose :: bool
  arg_diff :: bool
  arg_check_min_disk_write :: "string option"
  arg_check_max_disk_write :: "string option"
  arg_check_min_disk_delete :: "string option"
  \<comment> \<open>The parsed command line: \<open>--verbose\<close>, \<open>--diff\<close>, and the three thresholds, each
      \<open>None\<close> when \<open>program.is_used\<close> is false.\<close>

definition check_at_least :: "string option \<Rightarrow> int \<Rightarrow> exit_status option" where
  \<comment> \<open>\<open>if (program.is_used(flag)) { int m = std::stoi(program.get(flag));
      if (actual < m) return 1; }\<close>\<close>
  "check_at_least flag actual =
     (case flag of
        None \<Rightarrow> None
      | Some str \<Rightarrow>
          (case stoi str of
             Inl ex \<Rightarrow> Some (Terminate ex)
           | Inr m \<Rightarrow> if actual < m then Some (Return 1) else None))"

definition check_at_most :: "string option \<Rightarrow> int \<Rightarrow> exit_status option" where
  "check_at_most flag actual =
     (case flag of
        None \<Rightarrow> None
      | Some str \<Rightarrow>
          (case stoi str of
             Inl ex \<Rightarrow> Some (Terminate ex)
           | Inr m \<Rightarrow> if actual > m then Some (Return 1) else None))"

definition disk_checks :: "program_args \<Rightarrow> 's BusTubInstance \<Rightarrow> 's \<Rightarrow> exit_status" where
  \<comment> \<open>The three threshold checks after the loop, and the final \<open>return 0\<close>.\<close>
  "disk_checks program bustub s =
     (case check_at_least (arg_check_min_disk_write program) (GetNumWrites bustub s) of
        Some x \<Rightarrow> x
      | None \<Rightarrow>
          (case check_at_most (arg_check_max_disk_write program) (GetNumWrites bustub s) of
             Some x \<Rightarrow> x
           | None \<Rightarrow>
               (case check_at_least (arg_check_min_disk_delete program)
                       (GetNumDeletes bustub s) of
                  Some x \<Rightarrow> x
                | None \<Rightarrow> Return 0)))"

definition run_script ::
  "program_args \<Rightarrow> 's BusTubInstance \<Rightarrow> Record list \<Rightarrow> 's world
   \<Rightarrow> exit_status \<times> 's world" where
  \<comment> \<open>The part of \<open>main\<close> from the \<open>for\<close> loop to its last \<open>return\<close>.\<close>
  "run_script program bustub result w =
     (case main_loop bustub (arg_verbose program) (arg_diff program) result w of
        (Some x, w') \<Rightarrow> (x, w')
      | (None, w') \<Rightarrow> (disk_checks program bustub (session w'), w'))"

definition main ::
  "program_args \<Rightarrow> 's BusTubInstance \<Rightarrow> Record list \<Rightarrow> 's world
   \<Rightarrow> exit_status \<times> 's world" where
  \<comment> \<open>\<open>main\<close> from the parsed script on: \<open>result\<close> is what \<open>SQLLogicTestParser::Parse\<close>
      returned, \<open>w\<close> holds the session as set up (\<open>GenerateMockTable\<close>,
      \<open>GenerateTestTable\<close>) and the working directory's files.\<close>
  "main program bustub result w =
     (if result = [] then (Return 0, w) else run_script program bustub result w)"

subsection \<open>A session that records its calls\<close>

type_synonym call = "string \<times> ResultWriter \<times> CheckOption set option"

definition recording :: "(call list \<Rightarrow> call \<Rightarrow> exn + string) \<Rightarrow> call list BusTubInstance" where
  \<comment> \<open>A session whose state is the list of the \<open>ExecuteSql\<close> calls made so far and whose
      answer to a call is any function \<open>respond\<close> of that history and the call: every
      deterministic session is one of these, seen through its calls. It counts one disk
      write per call and no deletion.\<close>
  "recording respond =
     \<lparr>ExecuteSql = (\<lambda>sql writer check_options log.
         (respond log (sql, writer, check_options), log @ [(sql, writer, check_options)])),
      GetNumWrites = (\<lambda>log. int (length log)),
      GetNumDeletes = (\<lambda>log. 0)\<rparr>"

section \<open>The specification's words, as definitions\<close>

subsection \<open>The comparator's normalisation\<close>

fun break_lines :: "string \<Rightarrow> string list" where
  \<comment> \<open>Section 4.2, "split each block into lines on line breaks": the pieces between
      line breaks, empty ones included.\<close>
  "break_lines [] = [[]]"
| "break_lines (c # cs) =
     (if c = CHR 0x0A then [] # break_lines cs
      else (c # hd (break_lines cs)) # tl (break_lines cs))"

definition spec_normalize :: "string \<Rightarrow> string list" where
  \<comment> \<open>Section 4.2: "right-trim trailing whitespace from each line, drop lines that become
      empty after trimming".\<close>
  "spec_normalize block = filter (\<lambda>l. l \<noteq> []) (map RTrim (break_lines block))"

subsection \<open>What ensure:column-pruned tests\<close>

definition is_agg_line :: "string \<Rightarrow> bool" where
  \<comment> \<open>A plan line of an aggregation node.\<close>
  "is_agg_line l = StartsWith (LTrim l) ''Agg''"

definition is_projection_line :: "string \<Rightarrow> bool" where
  \<comment> \<open>A plan line of a projection node.\<close>
  "is_projection_line l = StartsWith (LTrim l) ''Projection''"

definition entries :: "string \<Rightarrow> nat" where
  \<comment> \<open>The number of entries of a rendered column list: one more than the number of
      \<open>",\<close> between entries.\<close>
  "entries cols = Count cols quote_comma + 1"

definition agg_line_ok :: "nat \<Rightarrow> string \<Rightarrow> bool" where
  \<comment> \<open>The aggregation line splits on \<open>],\<close> into exactly three fragments, and each of
      the first two (a bracketed list each) has at most the expected number of entries.\<close>
  "agg_line_ok expected_cols_agg l =
     (length (Split (LTrim l) ''],'') = 3
      \<and> entries (Split (LTrim l) ''],'' ! 0) \<le> expected_cols_agg
      \<and> entries (Split (LTrim l) ''],'' ! 1) \<le> expected_cols_agg)"

definition pruned_as_tested :: "string list \<Rightarrow> nat \<Rightarrow> nat \<Rightarrow> bool" where
  \<comment> \<open>Every projection line above the first aggregation line has at most
      \<open>expected_cols_proj\<close> entries, and the first aggregation line, if there is one,
      is as \<open>agg_line_ok\<close> says. Lines below the first aggregation line do not count.\<close>
  "pruned_as_tested lines expected_cols_proj expected_cols_agg =
     ((\<forall>l \<in> set (takeWhile (\<lambda>l. \<not> is_agg_line l) lines).
         is_projection_line l \<longrightarrow> entries (LTrim l) \<le> expected_cols_proj)
      \<and> (case dropWhile (\<lambda>l. \<not> is_agg_line l) lines of
            [] \<Rightarrow> True
          | l # below \<Rightarrow> agg_line_ok expected_cols_agg l))"

subsection \<open>The flags a record's directives enable\<close>

definition flags_enabled_by :: "string list \<Rightarrow> CheckOption set" where
  \<comment> \<open>Section 4.1: \<open>topn\<close> and \<open>topn*2\<close> enable the top-N check, \<open>nlj_init_check\<close> the
      nested-loop-join check; no other directive enables a flag.\<close>
  "flags_enabled_by extra_options =
     (if ''ensure:topn'' \<in> set extra_options \<or> ''ensure:topn*2'' \<in> set extra_options
      then {ENABLE_TOPN_CHECK} else {})
     \<union> (if ''ensure:nlj_init_check'' \<in> set extra_options then {ENABLE_NLJ_CHECK} else {})"

fun record_directives :: "Record \<Rightarrow> string list" where
  "record_directives (HaltRecord loc) = []"
| "record_directives (SleepRecord loc seconds) = []"
| "record_directives (StatementRecord loc is_error sql extra_options) = extra_options"
| "record_directives (QueryRecord loc sort_mode sql expected_result extra_options) =
     extra_options"

definition carries_only :: "CheckOption set \<Rightarrow> call \<Rightarrow> bool" where
  \<comment> \<open>The call passes no \<open>CheckOptions\<close>, or one whose flags are all among \<open>allowed\<close>.\<close>
  "carries_only allowed c =
     (case snd (snd c) of None \<Rightarrow> True | Some flags \<Rightarrow> flags \<subseteq> allowed)"

section \<open>Sessions, scripts and plans for the examples\<close>

definition no_thresholds :: program_args where
  "no_thresholds =
     \<lparr>arg_verbose = False, arg_diff = False, arg_check_min_disk_write = None,
      arg_check_max_disk_write = None, arg_check_min_disk_delete = None\<rparr>"

definition empty_dir :: filesystem where
  "empty_dir = \<lparr>contents = Map.empty, writable = (\<lambda>name. True)\<rparr>"

definition fresh :: "call list world" where
  \<comment> \<open>A recording session before its first call, in an empty directory.\<close>
  "fresh = \<lparr>session = [], files = empty_dir\<rparr>"

definition agreeable :: "call list BusTubInstance" where
  \<comment> \<open>A session that executes everything and writes nothing.\<close>
  "agreeable = recording (\<lambda>log call. Inr [])"

definition no_such_table :: "call list BusTubInstance" where
  \<comment> \<open>A session in which every statement raises an engine error.\<close>
  "no_such_table = recording (\<lambda>log call. Inl (Exception ''table not found''))"

definition agg_line :: string where
  "agg_line = ''Agg { types=[\"count_star\"], aggregates=[\"1\"], group_by=[] }''"

definition projection_line :: string where
  "projection_line = ''  Projection { exprs=[\"#0.0\", \"#0.1\", \"#0.2\"] }''"

definition agg_over_projection :: string where
  \<comment> \<open>A plan whose projection node, of three columns, is below its aggregation node.\<close>
  "agg_over_projection = agg_line @ [CHR 0x0A] @ projection_line"

definition projection_over_agg :: string where
  \<comment> \<open>The same two nodes, the projection on top.\<close>
  "projection_over_agg = projection_line @ [CHR 0x0A] @ agg_line"

definition planner :: "string \<Rightarrow> call list BusTubInstance" where
  \<comment> \<open>A session that answers every call with the given plan text.\<close>
  "planner plan = recording (\<lambda>log call. Inr plan)"

section \<open>Properties of the result comparator\<close>

lemma break_lines_unfold:
  "break_lines s =
     takeWhile (\<lambda>c. c \<noteq> CHR 0x0A) s #
     (case dropWhile (\<lambda>c. c \<noteq> CHR 0x0A) s of [] \<Rightarrow> [] | c # rest \<Rightarrow> break_lines rest)"
proof (induction s)
  case Nil
  show ?case by simp
next
  case (Cons c cs)
  show ?case
  proof (cases "c = CHR 0x0A")
    case True
    then show ?thesis by simp
  next
    case False
    have "break_lines (c # cs) = (c # hd (break_lines cs)) # tl (break_lines cs)"
      using False by simp
    also have "\<dots> = (c # takeWhile (\<lambda>c. c \<noteq> CHR 0x0A) cs) #
        (case dropWhile (\<lambda>c. c \<noteq> CHR 0x0A) cs of [] \<Rightarrow> [] | c # rest \<Rightarrow> break_lines rest)"
      by (subst (1 2) Cons.IH) simp
    finally show ?thesis using False by simp
  qed
qed

lemma spec_normalize_Nil: "spec_normalize [] = []"
  by (simp add: spec_normalize_def RTrim_def)

lemma spec_normalize_getline:
  assumes "getline s = Some (line, rest)"
  shows "spec_normalize s =
           (if RTrim line \<noteq> [] then [RTrim line] else []) @ spec_normalize rest"
proof -
  let ?P = "\<lambda>c. c \<noteq> CHR 0x0A"
  from assms have "s \<noteq> [] \<and> line = takeWhile ?P s \<and> rest = drop 1 (dropWhile ?P s)"
    by (simp add: getline_def split: if_splits)
  then have l: "line = takeWhile ?P s" and r: "rest = drop 1 (dropWhile ?P s)"
    by blast+
  show ?thesis
  proof (cases "dropWhile ?P s")
    case Nil
    have "rest = []" unfolding r Nil by simp
    moreover have "break_lines s = [line]"
      by (subst break_lines_unfold) (simp add: Nil l)
    ultimately show ?thesis
      by (simp add: spec_normalize_def RTrim_def)
  next
    case (Cons c cs)
    have "rest = cs" unfolding r Cons by simp
    moreover have "break_lines s = line # break_lines cs"
      by (subst break_lines_unfold) (simp add: Cons l)
    ultimately show ?thesis
      by (simp add: spec_normalize_def)
  qed
qed

lemma SplitLines_loop_spec:
  "SplitLines_loop s acc = acc @ spec_normalize s"
proof (induction s acc rule: SplitLines_loop.induct)
  case (1 linestream result)
  show ?case
  proof (cases "getline linestream")
    case None
    then have "linestream = []" by (simp add: getline_def split: if_splits)
    with None show ?thesis
      by (subst SplitLines_loop.simps) (simp add: spec_normalize_Nil)
  next
    case (Some p)
    obtain line rest where p: "p = (line, rest)" by (cases p)
    show ?thesis
    proof (cases "RTrim line \<noteq> []")
      case True
      with 1(1) [OF Some [unfolded p] refl refl] Some p
        spec_normalize_getline [OF Some [unfolded p]]
      show ?thesis
        by (subst SplitLines_loop.simps) simp
    next
      case False
      with 1(2) [OF Some [unfolded p] refl refl] Some p
        spec_normalize_getline [OF Some [unfolded p]]
      show ?thesis
        by (subst SplitLines_loop.simps) simp
    qed
  qed
qed

lemma SplitLines_a_b: "SplitLines ''a\<newline>b'' = [''a'', ''b'']"
  by (simp add: SplitLines_def SplitLines_loop.simps getline_def RTrim_def isspace_def)

lemma SplitLines_b_a: "SplitLines ''b\<newline>a'' = [''b'', ''a'']"
  by (simp add: SplitLines_def SplitLines_loop.simps getline_def RTrim_def isspace_def)

text \<open>
  Claim C7. With the produced text \<open>a\nb\<close> and the expected text \<open>b\na\<close>,
  \<open>ResultCompare\<close> reports equal under \<open>ROWSORT\<close> (whatever the diff flag, and no file
  is touched), and reports not equal under \<open>NOSORT\<close>: it returns \<open>false\<close> when no diff is
  requested, and with the diff flag set it never returns \<open>true\<close>.
\<close>

theorem ResultCompare_rowsort_vs_nosort:
  "ResultCompare ''a\<newline>b'' ''b\<newline>a'' ROWSORT dump_diff fs = (Inr True, fs)
   \<and> ResultCompare ''a\<newline>b'' ''b\<newline>a'' NOSORT False fs = (Inr False, fs)
   \<and> fst (ResultCompare ''a\<newline>b'' ''b\<newline>a'' NOSORT dump_diff fs) \<noteq> Inr True"
  by (simp add: ResultCompare_def SplitLines_a_b SplitLines_b_a dump_file_def Let_def
      split: sum.splits)

text \<open>
  Claim C8. Comparing a text block with itself yields equality under either sort mode
  (whatever the diff flag; no file is touched), and the lines \<open>SplitLines\<close> compares are
  the block's lines, each right-trimmed, without those that became empty.
\<close>

theorem ResultCompare_reflexive:
  "ResultCompare A A sort_mode dump_diff fs = (Inr True, fs)
   \<and> SplitLines A = spec_normalize A"
  by (simp add: ResultCompare_def SplitLines_def SplitLines_loop_spec)

section \<open>Properties of the directive processor\<close>

lemma recording_ExecuteSql:
  "ExecuteSql (recording respond) sql writer co log =
     (respond log (sql, writer, co), log @ [(sql, writer, co)])"
  by (simp add: recording_def)

lemma StartsWith_append:
  assumes "StartsWith str pre"
  shows "\<exists>rest. str = pre @ rest"
proof -
  from assms have "take (length pre) str = pre"
    by (simp only: StartsWith_def)
  then have "str = pre @ drop (length pre) str"
    by (metis append_take_drop_id)
  then show ?thesis ..
qed

lemma StartsWith_ensure:
  assumes "StartsWith opt ''ensure:column-pruned''"
  shows "StartsWith opt ''ensure:''"
proof -
  from StartsWith_append [OF assms] obtain rest
    where "opt = ''ensure:column-pruned'' @ rest" ..
  then show ?thesis
    by (simp add: StartsWith_def)
qed

text \<open>
  Claim C5. \<open>ensure:hash_join\<close> runs \<open>explain (o) <sql>\<close> once and fails exactly when
  splitting the plan text on \<open>HashJoin\<close> does not yield 2 fragments and the plan text does
  not contain \<open>Filter\<close>; whenever \<open>Filter\<close> is present the directive passes. (An error of
  the session leaves the processor as it is.)
\<close>

theorem ensure_hash_join_fails_iff:
  "ProcessExtraOptions sql bustub [''ensure:hash_join''] verbose check_options s =
     (case ExecuteSql bustub (''explain (o) '' @ sql) plan_writer None s of
        (Inl ex, s') \<Rightarrow> (Inl ex, check_options, s')
      | (Inr plan, s') \<Rightarrow>
          (Inr (\<not> (length (Split plan ''HashJoin'') \<noteq> 2 \<and> \<not> Contains plan ''Filter'')),
           check_options, s'))"
  by (simp add: process_option_def StartsWith_def check_ensure_def
      split: prod.splits sum.splits)

lemma Split_explain: "Split ''explain'' ''explain:'' = [''explain'']"
  by (simp add: Split.simps StartsWith_def)

lemma Split_explain_o: "Split ''explain:o'' ''explain:'' = [''o'']"
  by (simp add: Split.simps StartsWith_def)

text \<open>
  Claim C6, at the directive \<open>explain\<close> with no options. The separator \<open>explain:\<close> does
  not occur in the directive, so \<open>Split\<close> returns the directive itself as its only
  fragment, the test \<open>!x.empty() && !x[0].empty()\<close> holds, and for every SQL text the
  session is sent \<open>explain (explain) <sql>\<close>, not \<open>explain <sql>\<close>: for \<open>select 1\<close>
  the recorded call is \<open>explain (explain) select 1\<close>. With options, as in
  \<open>explain:o\<close>, the session is sent \<open>explain (o) select 1\<close>. Either way the directive
  passes unless the session throws.
\<close>

theorem explain_without_options:
  "ProcessExtraOptions sql bustub [''explain''] verbose check_options s =
     (case ExecuteSql bustub (''explain (explain) '' @ sql) cout_writer None s of
        (Inl ex, s') \<Rightarrow> (Inl ex, check_options, s')
      | (Inr out, s') \<Rightarrow> (Inr True, check_options, s'))
   \<and> ProcessExtraOptions ''select 1'' agreeable [''explain''] False {} [] =
     (Inr True, {}, [(''explain (explain) select 1'', cout_writer, None)])
   \<and> ProcessExtraOptions ''select 1'' agreeable [''explain:o''] False {} [] =
     (Inr True, {}, [(''explain (o) select 1'', cout_writer, None)])"
  by (simp add: process_option_def StartsWith_def explain_sql_def Split_explain
      Split_explain_o agreeable_def recording_ExecuteSql split: prod.splits sum.splits)

lemma column_pruned_lines_tested:
  "column_pruned_lines lines p a = pruned_as_tested lines p a"
proof (induction lines)
  case Nil
  show ?case by (simp add: pruned_as_tested_def)
next
  case (Cons l lines)
  show ?case
  proof (cases "is_agg_line l")
    case True
    then show ?thesis
      by (auto simp: pruned_as_tested_def is_agg_line_def agg_line_ok_def entries_def Let_def)
  next
    case False
    with Cons.IH show ?thesis
      by (auto simp: pruned_as_tested_def is_agg_line_def is_projection_line_def
          entries_def Let_def)
  qed
qed

lemma Split_pruned_1_5:
  "Split ''ensure:column-pruned:1:5'' '':'' = [''ensure'', ''column-pruned'', ''1'', ''5'']"
  by (simp add: Split.simps StartsWith_def)

lemma Split_pruned_2_3:
  "Split ''ensure:column-pruned:2:3'' '':'' = [''ensure'', ''column-pruned'', ''2'', ''3'']"
  by (simp add: Split.simps StartsWith_def)

lemma stoi_digit:
  "stoi ''1'' = Inr 1" "stoi ''2'' = Inr 2" "stoi ''3'' = Inr 3" "stoi ''5'' = Inr 5"
  by (simp_all add: stoi_def isspace_def is_digit_def digits_val_def Let_def)

lemma size_t_small:
  "size_t_of_int 1 = 1" "size_t_of_int 2 = 2" "size_t_of_int 3 = 3" "size_t_of_int 5 = 5"
  by (simp_all add: size_t_of_int_def)

lemma Split_agg_over_projection:
  "Split agg_over_projection [CHR 0x0A] = [agg_line, projection_line]"
  by (simp add: Split.simps StartsWith_def agg_over_projection_def agg_line_def
      projection_line_def)

lemma Split_projection_over_agg:
  "Split projection_over_agg [CHR 0x0A] = [projection_line, agg_line]"
  by (simp add: Split.simps StartsWith_def projection_over_agg_def agg_line_def
      projection_line_def)

lemma LTrim_agg_line: "LTrim agg_line = agg_line"
  by (simp add: LTrim_def agg_line_def isspace_def)

lemma LTrim_projection_line:
  "LTrim projection_line = ''Projection { exprs=[\"#0.0\", \"#0.1\", \"#0.2\"] }''"
  by (simp add: LTrim_def projection_line_def isspace_def)

lemma lines_kinds:
  "is_agg_line agg_line" "\<not> is_agg_line projection_line"
  "is_projection_line projection_line"
  by (simp_all add: is_agg_line_def is_projection_line_def LTrim_agg_line
      LTrim_projection_line) (simp_all add: StartsWith_def agg_line_def)

lemma entries_projection_line: "entries (LTrim projection_line) = 3"
  by (simp add: LTrim_projection_line entries_def quote_comma_def Count.simps StartsWith_def)

lemma agg_line_ok_5: "agg_line_ok 5 agg_line" "agg_line_ok 3 agg_line"
  by (simp_all add: agg_line_ok_def LTrim_agg_line)
     (simp_all add: agg_line_def entries_def quote_comma_def Split.simps Count.simps
      StartsWith_def)

lemma check_ensure_column_pruned:
  assumes "StartsWith opt ''ensure:column-pruned''"
  shows "check_ensure opt plan check_options =
           (case column_pruned opt plan of
              Inl e \<Rightarrow> Inl e
            | Inr ok \<Rightarrow> Inr (ok, check_options))"
proof -
  from StartsWith_append [OF assms] obtain rest
    where opt: "opt = ''ensure:column-pruned'' @ rest" ..
  have "opt \<noteq> ''ensure:index_scan''" "opt \<noteq> ''ensure:seq_scan''"
    "opt \<noteq> ''ensure:hash_join''" "opt \<noteq> ''ensure:hash_join_no_filter''"
    "opt \<noteq> ''ensure:hash_join*2''" "opt \<noteq> ''ensure:hash_join*3''"
    "opt \<noteq> ''ensure:topn''" "opt \<noteq> ''ensure:topn*2''"
    "opt \<noteq> ''ensure:index_join''" "opt \<noteq> ''ensure:nlj_init_check''"
    by (simp_all add: opt)
  with assms show ?thesis
    by (simp add: check_ensure_def)
qed

text \<open>
  Claim C2, as the code has it. For a well-formed directive
  \<open>ensure:column-pruned:<expectedProjCols>:<expectedAggCols>\<close> and the plan text the
  session returns, the directive passes exactly when every projection line above the
  first aggregation line has at most \<open>expectedProjCols\<close> entries and the first
  aggregation line, if any, splits on \<open>],\<close> into three fragments of which the first two
  have at most \<open>expectedAggCols\<close> entries each. The scan of the plan stops at the first
  aggregation line: no line below it is tested. (The expected numbers are compared as
  \<open>size_t\<close>.)
\<close>

theorem column_pruned_tests:
  assumes "StartsWith opt ''ensure:column-pruned''"
    and "Split opt '':'' = [a0, a1, a2, a3]"
    and "stoi a2 = Inr expected_cols_proj"
    and "stoi a3 = Inr expected_cols_agg"
    and "ExecuteSql bustub (''explain (o) '' @ sql) plan_writer None s = (Inr plan, s')"
  shows "ProcessExtraOptions sql bustub [opt] verbose check_options s =
           (Inr (pruned_as_tested (Split plan [CHR 0x0A])
                   (size_t_of_int expected_cols_proj) (size_t_of_int expected_cols_agg)),
            check_options, s')"
proof -
  have "column_pruned opt plan =
      Inr (pruned_as_tested (Split plan [CHR 0x0A])
             (size_t_of_int expected_cols_proj) (size_t_of_int expected_cols_agg))"
    using assms(2-4) by (simp add: column_pruned_def column_pruned_lines_tested)
  with check_ensure_column_pruned [OF assms(1)]
  have "check_ensure opt plan check_options =
      Inr (pruned_as_tested (Split plan [CHR 0x0A])
             (size_t_of_int expected_cols_proj) (size_t_of_int expected_cols_agg),
           check_options)"
    by simp
  with StartsWith_ensure [OF assms(1)] assms(5) show ?thesis
    by (simp add: process_option_def)
qed

text \<open>
  The witness of C2: \<open>ensure:column-pruned:2:3\<close> on a plan whose projection, of three
  columns, is above the aggregation fails, as in section 8.
\<close>

theorem column_pruned_tests_witness:
  "StartsWith ''ensure:column-pruned:2:3'' ''ensure:column-pruned''
   \<and> Split ''ensure:column-pruned:2:3'' '':'' = [''ensure'', ''column-pruned'', ''2'', ''3'']
   \<and> stoi ''2'' = Inr 2 \<and> stoi ''3'' = Inr 3
   \<and> ExecuteSql (planner projection_over_agg) (''explain (o) '' @ ''select 1'') plan_writer
         None [] =
       (Inr projection_over_agg, [(''explain (o) select 1'', plan_writer, None)])
   \<and> ProcessExtraOptions ''select 1'' (planner projection_over_agg)
         [''ensure:column-pruned:2:3''] False {} [] =
       (Inr False, {}, [(''explain (o) select 1'', plan_writer, None)])"
proof -
  have a: "StartsWith ''ensure:column-pruned:2:3'' ''ensure:column-pruned''"
    by (simp add: StartsWith_def)
  have e: "ExecuteSql (planner projection_over_agg) (''explain (o) '' @ ''select 1'')
             plan_writer None [] =
           (Inr projection_over_agg, [(''explain (o) select 1'', plan_writer, None)])"
    by (simp add: planner_def recording_ExecuteSql)
  have t: "\<not> pruned_as_tested [projection_line, agg_line] 2 3"
    by (simp add: pruned_as_tested_def lines_kinds entries_projection_line)
  from column_pruned_tests [OF a Split_pruned_2_3 stoi_digit(2) stoi_digit(3) e,
      of False "{}"]
  have "ProcessExtraOptions ''select 1'' (planner projection_over_agg)
         [''ensure:column-pruned:2:3''] False {} [] =
       (Inr False, {}, [(''explain (o) select 1'', plan_writer, None)])"
    by (simp only: Split_projection_over_agg size_t_small t)
  with a Split_pruned_2_3 stoi_digit(2) stoi_digit(3) e show ?thesis
    by blast
qed

text \<open>
  The counterexample to C2 as stated: the plan has a projection node of three columns
  below its aggregation node; \<open>ensure:column-pruned:1:5\<close> passes, although that
  projection has more than one column. The same projection above the aggregation fails
  the directive.
\<close>

theorem column_pruned_counterexample:
  "is_projection_line projection_line
   \<and> entries (LTrim projection_line) = 3
   \<and> Split agg_over_projection [CHR 0x0A] = [agg_line, projection_line]
   \<and> ProcessExtraOptions ''select 1'' (planner agg_over_projection)
         [''ensure:column-pruned:1:5''] False {} [] =
       (Inr True, {}, [(''explain (o) select 1'', plan_writer, None)])
   \<and> ProcessExtraOptions ''select 1'' (planner projection_over_agg)
         [''ensure:column-pruned:1:5''] False {} [] =
       (Inr False, {}, [(''explain (o) select 1'', plan_writer, None)])"
proof -
  have a: "StartsWith ''ensure:column-pruned:1:5'' ''ensure:column-pruned''"
    by (simp add: StartsWith_def)
  have b: "StartsWith ''ensure:column-pruned:1:5'' ''ensure:''"
    by (simp add: StartsWith_def)
  have up: "column_pruned_lines [agg_line, projection_line]
      (size_t_of_int 1) (size_t_of_int 5)"
    unfolding size_t_small
    by (subst column_pruned_lines_tested)
       (simp add: pruned_as_tested_def lines_kinds agg_line_ok_5)
  have down: "\<not> column_pruned_lines [projection_line, agg_line]
      (size_t_of_int 1) (size_t_of_int 5)"
    unfolding size_t_small
    by (subst column_pruned_lines_tested)
       (simp add: pruned_as_tested_def lines_kinds entries_projection_line)
  have c1: "column_pruned ''ensure:column-pruned:1:5'' agg_over_projection = Inr True"
    by (simp add: column_pruned_def Split_pruned_1_5 stoi_digit
        Split_agg_over_projection up del: column_pruned_lines.simps)
  have c2: "column_pruned ''ensure:column-pruned:1:5'' projection_over_agg = Inr False"
    by (simp add: column_pruned_def Split_pruned_1_5 stoi_digit
        Split_projection_over_agg down del: column_pruned_lines.simps)
  have p1: "ProcessExtraOptions ''select 1'' (planner agg_over_projection)
         [''ensure:column-pruned:1:5''] False {} [] =
       (Inr True, {}, [(''explain (o) select 1'', plan_writer, None)])"
    by (simp add: process_option_def b check_ensure_column_pruned [OF a] c1 planner_def
        recording_ExecuteSql)
  have p2: "ProcessExtraOptions ''select 1'' (planner projection_over_agg)
         [''ensure:column-pruned:1:5''] False {} [] =
       (Inr False, {}, [(''explain (o) select 1'', plan_writer, None)])"
    by (simp add: process_option_def b check_ensure_column_pruned [OF a] c2 planner_def
        recording_ExecuteSql)
  from lines_kinds(3) entries_projection_line Split_agg_over_projection p1 p2
  show ?thesis by blast
qed

section \<open>Properties of the execution driver\<close>

lemma main_loop_append:
  "main_loop bustub verbose diff (xs @ ys) w =
     (case main_loop bustub verbose diff xs w of
        (Some x, w') \<Rightarrow> (Some x, w')
      | (None, w') \<Rightarrow> main_loop bustub verbose diff ys w')"
  by (induction xs arbitrary: w) (auto split: prod.splits option.splits)

lemma run_script_Cons:
  "run_script program bustub (r # rest) w =
     (case run_record bustub (arg_verbose program) (arg_diff program) r w of
        (Some x, w') \<Rightarrow> (x, w')
      | (None, w') \<Rightarrow> run_script program bustub rest w')"
  by (simp add: run_script_def split: prod.splits option.splits)

lemma main_reaches:
  assumes "main_loop bustub (arg_verbose program) (arg_diff program) before w0 = (None, w)"
  shows "main program bustub (before @ r # rest) w0 = run_script program bustub (r # rest) w"
  using assms by (simp add: main_def run_script_def main_loop_append)

lemma unsupported_directive_raises:
  assumes "\<not> StartsWith opt ''ensure:''" "\<not> StartsWith opt ''timing''"
    and "\<not> StartsWith opt ''explain''"
  shows "ProcessExtraOptions sql bustub [opt] verbose co s =
     (Inl (NotImplementedException (''unsupported extra option: '' @ opt)), co, s)"
  using assms by (simp add: process_option_def)

lemma unsupported_foo:
  "ProcessExtraOptions sql bustub [''foo''] verbose co s =
     (Inl (NotImplementedException ''unsupported extra option: foo''), co, s)"
proof -
  have "\<not> StartsWith ''foo'' ''ensure:''" "\<not> StartsWith ''foo'' ''timing''"
    "\<not> StartsWith ''foo'' ''explain''"
    by (simp_all add: StartsWith_def)
  from unsupported_directive_raises [OF this] show ?thesis by simp
qed

lemma disk_checks_no_thresholds: "disk_checks no_thresholds bustub s = Return 0"
  by (simp add: disk_checks_def check_at_least_def check_at_most_def no_thresholds_def)

lemma session_fresh:
  "session fresh = []" "fresh\<lparr>session := session fresh\<rparr> = fresh"
  "fresh\<lparr>session := []\<rparr> = fresh"
  by (simp_all add: fresh_def)

text \<open>
  Claim C10. When the driver reaches a \<open>Halt\<close> record, \<open>main\<close> returns 0 there: the
  world is the one the records before the \<open>Halt\<close> left, so no later record is
  processed, and the result does not depend on the thresholds of the command line.
\<close>

theorem halt_returns_0:
  assumes "main_loop bustub (arg_verbose program) (arg_diff program) before w0 = (None, w)"
  shows "main program bustub (before @ HaltRecord loc # rest) w0 = (Return 0, w)"
  using main_reaches [OF assms] by (simp add: run_script_Cons)

text \<open>
  The witness of C10: a statement, a \<open>Halt\<close>, another statement, with
  \<open>--check-min-disk-write 100\<close>. The run returns 0 after the first statement's single
  call, where the threshold check would have returned 1.
\<close>

theorem halt_returns_0_witness:
  "main_loop agreeable
      (arg_verbose (no_thresholds\<lparr>arg_check_min_disk_write := Some ''100''\<rparr>))
      (arg_diff (no_thresholds\<lparr>arg_check_min_disk_write := Some ''100''\<rparr>))
      [StatementRecord ''t.slt:1'' False ''create table t(a int)'' []] fresh
     = (None, fresh\<lparr>session := [(''create table t(a int)'', statement_writer, Some {})]\<rparr>)
   \<and> main (no_thresholds\<lparr>arg_check_min_disk_write := Some ''100''\<rparr>) agreeable
        ([StatementRecord ''t.slt:1'' False ''create table t(a int)'' []] @
         HaltRecord ''t.slt:2'' #
         [StatementRecord ''t.slt:3'' False ''insert into t values (1)'' []]) fresh
     = (Return 0, fresh\<lparr>session := [(''create table t(a int)'', statement_writer, Some {})]\<rparr>)
   \<and> disk_checks (no_thresholds\<lparr>arg_check_min_disk_write := Some ''100''\<rparr>) agreeable
        [(''create table t(a int)'', statement_writer, Some {})] = Return 1"
proof -
  let ?program = "no_thresholds\<lparr>arg_check_min_disk_write := Some ''100''\<rparr>"
  let ?w = "fresh\<lparr>session := [(''create table t(a int)'', statement_writer, Some {})]\<rparr>"
  have run: "main_loop agreeable (arg_verbose ?program) (arg_diff ?program)
      [StatementRecord ''t.slt:1'' False ''create table t(a int)'' []] fresh = (None, ?w)"
    by (simp add: agreeable_def recording_ExecuteSql fresh_def no_thresholds_def)
  have s: "stoi ''100'' = Inr 100"
    by (simp add: stoi_def isspace_def is_digit_def digits_val_def Let_def)
  have chk: "disk_checks ?program agreeable
      [(''create table t(a int)'', statement_writer, Some {})] = Return 1"
    by (simp add: disk_checks_def check_at_least_def no_thresholds_def s agreeable_def
        recording_def)
  from halt_returns_0 [OF run] run chk show ?thesis by blast
qed

text \<open>
  Claim C3. A \<open>Statement\<close> record is reached, its directives pass, and its SQL is
  executed with result \<open>r\<close>: an engine error (\<open>Inl\<close> of an exception that is a
  \<open>bustub::Exception\<close>) or success (\<open>Inr\<close>). The driver goes on to the next record
  exactly when "raised an error" equals \<open>is_error_\<close>; in the two other cases \<open>main\<close>
  returns 1 at this record.
\<close>

theorem statement_passes_iff_expected:
  assumes "main_loop bustub (arg_verbose program) (arg_diff program) before w0 = (None, w)"
    and "ProcessExtraOptions sql bustub extra_options (arg_verbose program) {} (session w)
           = (Inr True, co, s1)"
    and "ExecuteSql bustub sql statement_writer (Some co) s1 = (r, s2)"
    and "case r of Inl ex \<Rightarrow> is_bustub_Exception ex | Inr out \<Rightarrow> True"
  shows "main program bustub
           (before @ StatementRecord loc is_error sql extra_options # rest) w0 =
           (if isl r = is_error then run_script program bustub rest (w\<lparr>session := s2\<rparr>)
            else (Return 1, w\<lparr>session := s2\<rparr>))"
  using main_reaches [OF assms(1)] assms(2-4)
  by (cases r) (auto simp: run_script_Cons statement_catch_def)

text \<open>
  The witness of C3: in a session where the table does not exist, the statement that
  expects an error passes and the same statement without the expectation makes \<open>main\<close>
  return 1; the \<open>Halt\<close> after it is not reached.
\<close>

theorem statement_passes_iff_expected_witness:
  "ProcessExtraOptions ''select * from nowhere'' no_such_table []
      (arg_verbose no_thresholds) {} (session fresh) = (Inr True, {}, [])
   \<and> ExecuteSql no_such_table ''select * from nowhere'' statement_writer (Some {}) []
     = (Inl (Exception ''table not found''),
        [(''select * from nowhere'', statement_writer, Some {})])
   \<and> is_bustub_Exception (Exception ''table not found'')
   \<and> main no_thresholds no_such_table
     ([] @ StatementRecord ''t.slt:1'' True ''select * from nowhere'' [] #
        [StatementRecord ''t.slt:2'' False ''select * from nowhere'' [],
         HaltRecord ''t.slt:3'']) fresh
     = run_script no_thresholds no_such_table
        [StatementRecord ''t.slt:2'' False ''select * from nowhere'' [],
         HaltRecord ''t.slt:3'']
        (fresh\<lparr>session := [(''select * from nowhere'', statement_writer, Some {})]\<rparr>)
   \<and> main no_thresholds no_such_table
     ([StatementRecord ''t.slt:1'' True ''select * from nowhere'' []] @
        StatementRecord ''t.slt:2'' False ''select * from nowhere'' [] #
        [HaltRecord ''t.slt:3'']) fresh
     = (Return 1, fresh\<lparr>session :=
          [(''select * from nowhere'', statement_writer, Some {}),
           (''select * from nowhere'', statement_writer, Some {})]\<rparr>)"
proof -
  let ?c = "(''select * from nowhere'', statement_writer, Some {})"
  let ?w1 = "fresh\<lparr>session := [?c]\<rparr>"
  have reach0: "main_loop no_such_table (arg_verbose no_thresholds) (arg_diff no_thresholds)
      [] fresh = (None, fresh)"
    by simp
  have p0: "ProcessExtraOptions ''select * from nowhere'' no_such_table []
      (arg_verbose no_thresholds) {} (session fresh) = (Inr True, {}, [])"
    by (simp add: session_fresh)
  have e0: "ExecuteSql no_such_table ''select * from nowhere'' statement_writer (Some {}) []
      = (Inl (Exception ''table not found''), [?c])"
    by (simp add: no_such_table_def recording_ExecuteSql)
  have b: "case (Inl (Exception ''table not found'') :: exn + string) of
             Inl ex \<Rightarrow> is_bustub_Exception ex | Inr out \<Rightarrow> True"
    by simp
  have first: "main no_thresholds no_such_table
     ([] @ StatementRecord ''t.slt:1'' True ''select * from nowhere'' [] #
        [StatementRecord ''t.slt:2'' False ''select * from nowhere'' [],
         HaltRecord ''t.slt:3'']) fresh
     = run_script no_thresholds no_such_table
        [StatementRecord ''t.slt:2'' False ''select * from nowhere'' [],
         HaltRecord ''t.slt:3''] ?w1"
    using statement_passes_iff_expected [OF reach0 p0 e0 b,
        where loc = "''t.slt:1''" and is_error = True
        and rest = "[StatementRecord ''t.slt:2'' False ''select * from nowhere'' [],
                     HaltRecord ''t.slt:3'']"]
    by (simp only: sum.disc simp_thms if_True)
  have reach1: "main_loop no_such_table (arg_verbose no_thresholds) (arg_diff no_thresholds)
      [StatementRecord ''t.slt:1'' True ''select * from nowhere'' []] fresh = (None, ?w1)"
    by (simp add: no_such_table_def recording_ExecuteSql fresh_def statement_catch_def)
  have p1: "ProcessExtraOptions ''select * from nowhere'' no_such_table []
      (arg_verbose no_thresholds) {} (session ?w1) = (Inr True, {}, [?c])"
    by simp
  have e1: "ExecuteSql no_such_table ''select * from nowhere'' statement_writer (Some {}) [?c]
      = (Inl (Exception ''table not found''), [?c, ?c])"
    by (simp add: no_such_table_def recording_ExecuteSql)
  have second: "main no_thresholds no_such_table
     ([StatementRecord ''t.slt:1'' True ''select * from nowhere'' []] @
        StatementRecord ''t.slt:2'' False ''select * from nowhere'' [] #
        [HaltRecord ''t.slt:3'']) fresh
     = (Return 1, fresh\<lparr>session := [?c, ?c]\<rparr>)"
    using statement_passes_iff_expected [OF reach1 p1 e1 b,
        where loc = "''t.slt:2''" and is_error = False and rest = "[HaltRecord ''t.slt:3'']"]
    by (simp add: fresh_def)
  have "is_bustub_Exception (Exception ''table not found'')"
    by simp
  with p0 e0 first second show ?thesis by blast
qed

text \<open>
  Claim C4. A \<open>Query\<close> record is reached, its directives pass, and its SQL is executed
  with result \<open>r\<close>. If the execution raises, \<open>main\<close> ends there with a failure (it
  returns 1 for a \<open>bustub::Exception\<close>; any other exception leaves \<open>main\<close> uncaught),
  whatever the record says, and the files are as they were: nothing was compared. Only a
  successful execution hands its output to \<open>ResultCompare\<close>, whose verdict decides
  between the next record and \<open>return 1\<close>.
\<close>

theorem query_error_is_fatal:
  assumes "main_loop bustub (arg_verbose program) (arg_diff program) before w0 = (None, w)"
    and "ProcessExtraOptions sql bustub extra_options (arg_verbose program) {} (session w)
           = (Inr True, co, s1)"
    and "ExecuteSql bustub sql query_writer (Some co) s1 = (r, s2)"
  shows "main program bustub
           (before @ QueryRecord loc sort_mode sql expected_result extra_options # rest) w0 =
           (case r of
              Inl ex \<Rightarrow>
                (if is_bustub_Exception ex then Return 1 else Terminate ex,
                 w\<lparr>session := s2\<rparr>)
            | Inr out \<Rightarrow>
                (case ResultCompare out expected_result sort_mode (arg_diff program)
                        (files w) of
                   (Inl ex, fs) \<Rightarrow>
                     (if is_bustub_Exception ex then Return 1 else Terminate ex,
                      w\<lparr>session := s2, files := fs\<rparr>)
                 | (Inr eq, fs) \<Rightarrow>
                     (if eq then run_script program bustub rest (w\<lparr>session := s2, files := fs\<rparr>)
                      else (Return 1, w\<lparr>session := s2, files := fs\<rparr>))))"
  using main_reaches [OF assms(1)] assms(2-3)
  by (cases r) (auto simp: run_script_Cons query_catch_def split: prod.splits sum.splits)

text \<open>
  The witness of C4: a query on a table that does not exist, with the diff flag set and
  row sorting; \<open>main\<close> returns 1, the \<open>Halt\<close> after the query is not reached and no
  file is written.
\<close>

theorem query_error_is_fatal_witness:
  "ProcessExtraOptions ''select * from nowhere'' no_such_table []
      (arg_verbose (no_thresholds\<lparr>arg_diff := True\<rparr>)) {} (session fresh)
     = (Inr True, {}, [])
   \<and> ExecuteSql no_such_table ''select * from nowhere'' query_writer (Some {}) []
     = (Inl (Exception ''table not found''),
        [(''select * from nowhere'', query_writer, Some {})])
   \<and> main (no_thresholds\<lparr>arg_diff := True\<rparr>) no_such_table
     ([] @ QueryRecord ''t.slt:1'' ROWSORT ''select * from nowhere'' ''1'' [] #
        [HaltRecord ''t.slt:2'']) fresh
     = (Return 1, fresh\<lparr>session := [(''select * from nowhere'', query_writer, Some {})]\<rparr>)"
proof -
  let ?program = "no_thresholds\<lparr>arg_diff := True\<rparr>"
  have reach: "main_loop no_such_table (arg_verbose ?program) (arg_diff ?program) [] fresh
      = (None, fresh)"
    by simp
  have p: "ProcessExtraOptions ''select * from nowhere'' no_such_table []
      (arg_verbose ?program) {} (session fresh) = (Inr True, {}, [])"
    by (simp add: session_fresh)
  have e: "ExecuteSql no_such_table ''select * from nowhere'' query_writer (Some {}) []
      = (Inl (Exception ''table not found''),
         [(''select * from nowhere'', query_writer, Some {})])"
    by (simp add: no_such_table_def recording_ExecuteSql)
  from query_error_is_fatal [OF reach p e, where loc = "''t.slt:1''" and sort_mode = ROWSORT
      and expected_result = "''1''" and rest = "[HaltRecord ''t.slt:2'']"]
  have "main ?program no_such_table
     ([] @ QueryRecord ''t.slt:1'' ROWSORT ''select * from nowhere'' ''1'' [] #
        [HaltRecord ''t.slt:2'']) fresh
     = (Return 1, fresh\<lparr>session := [(''select * from nowhere'', query_writer, Some {})]\<rparr>)"
    by simp
  with p e show ?thesis by blast
qed

text \<open>
  What the driver does with an exception \<open>ex\<close> that leaves the directive processor at a
  record it has reached: the \<open>QUERY\<close> handler ends the run; the \<open>STATEMENT\<close> handler
  ends the run when the record expects no error, and otherwise treats \<open>ex\<close> as the
  statement's own error.
\<close>

lemma directive_exception_handled:
  assumes "main_loop bustub (arg_verbose program) (arg_diff program) before w0 = (None, w)"
    and "ProcessExtraOptions sql bustub extra_options (arg_verbose program) {} (session w)
           = (Inl ex, co, s1)"
  shows "main program bustub
           (before @ QueryRecord loc sort_mode sql expected_result extra_options # rest) w0 =
           (if is_bustub_Exception ex then Return 1 else Terminate ex, w\<lparr>session := s1\<rparr>)
       \<and> main program bustub
           (before @ StatementRecord loc is_error sql extra_options # rest) w0 =
           (if is_bustub_Exception ex then
              (if is_error then run_script program bustub rest (w\<lparr>session := s1\<rparr>)
               else (Return 1, w\<lparr>session := s1\<rparr>))
            else (Terminate ex, w\<lparr>session := s1\<rparr>))"
  using main_reaches [OF assms(1)] assms(2)
  by (auto simp: run_script_Cons query_catch_def statement_catch_def)

text \<open>
  Claim C1 says that a configuration error of the directive processor aborts the run
  with failure whatever the record's expected-error flag is. The code at the script of
  one statement that expects an error and carries the unsupported directive \<open>foo\<close>:
  the directive processor throws \<open>NotImplementedException\<close> ("unsupported extra
  option: foo"), the handler written for the statement's own error catches it, no SQL
  reaches the session (its call list stays empty), and \<open>main\<close> returns 0. The same
  directive on a query, and on a statement that expects no error, makes \<open>main\<close>
  return 1 before the \<open>Halt\<close> that follows.
\<close>

theorem unsupported_directive_absorbed:
  "ProcessExtraOptions ''select 1'' agreeable [''foo''] False {} (session fresh) =
     (Inl (NotImplementedException ''unsupported extra option: foo''), {}, session fresh)
   \<and> session fresh = []
   \<and> main no_thresholds agreeable [StatementRecord ''t.slt:1'' True ''select 1'' [''foo'']]
        fresh = (Return 0, fresh)
   \<and> main no_thresholds agreeable
        [QueryRecord ''t.slt:1'' NOSORT ''select 1'' ''1'' [''foo''], HaltRecord ''t.slt:2'']
        fresh = (Return 1, fresh)
   \<and> main no_thresholds agreeable
        [StatementRecord ''t.slt:1'' False ''select 1'' [''foo''], HaltRecord ''t.slt:2'']
        fresh = (Return 1, fresh)"
proof -
  have reach: "main_loop agreeable (arg_verbose no_thresholds) (arg_diff no_thresholds) []
      fresh = (None, fresh)"
    by simp
  have p: "ProcessExtraOptions ''select 1'' agreeable [''foo''] (arg_verbose no_thresholds) {}
       (session fresh) =
     (Inl (NotImplementedException ''unsupported extra option: foo''), {}, session fresh)"
    by (rule unsupported_foo)
  have p0: "ProcessExtraOptions ''select 1'' agreeable [''foo''] False {} (session fresh) =
     (Inl (NotImplementedException ''unsupported extra option: foo''), {}, session fresh)"
    by (rule unsupported_foo)
  have nil: "[] @ xs = xs" for xs :: "Record list"
    by simp
  have fin: "run_script no_thresholds agreeable [] fresh = (Return 0, fresh)"
    by (simp add: run_script_def disk_checks_no_thresholds)
  note c = directive_exception_handled [OF reach p, where loc = "''t.slt:1''"
      and sort_mode = NOSORT and expected_result = "''1''"]
  have q: "main no_thresholds agreeable
        [QueryRecord ''t.slt:1'' NOSORT ''select 1'' ''1'' [''foo''], HaltRecord ''t.slt:2'']
        fresh = (Return 1, fresh)"
    using c [where rest = "[HaltRecord ''t.slt:2'']" and is_error = False, THEN conjunct1]
    by (simp only: is_bustub_Exception.simps if_True session_fresh nil)
  have s0: "main no_thresholds agreeable
        [StatementRecord ''t.slt:1'' False ''select 1'' [''foo''], HaltRecord ''t.slt:2'']
        fresh = (Return 1, fresh)"
    using c [where rest = "[HaltRecord ''t.slt:2'']" and is_error = False, THEN conjunct2]
    by (simp only: is_bustub_Exception.simps if_True if_False session_fresh nil)
  have s1: "main no_thresholds agreeable
        [StatementRecord ''t.slt:1'' True ''select 1'' [''foo'']] fresh = (Return 0, fresh)"
    using c [where rest = "[]" and is_error = True, THEN conjunct2]
    by (simp only: is_bustub_Exception.simps if_True session_fresh nil fin)
  from p0 session_fresh(1) s1 q s0 show ?thesis by blast
qed

subsection \<open>CheckOptions do not outlive their record\<close>

lemma flags_enabled_by_Cons:
  "flags_enabled_by (opt # opts) = flags_enabled_by [opt] \<union> flags_enabled_by opts"
  by (auto simp: flags_enabled_by_def)

lemma check_ensure_flags:
  assumes "check_ensure opt result co = Inr (ok, co')"
  shows "co' \<subseteq> co \<union> flags_enabled_by [opt]"
  using assms
  by (auto simp: check_ensure_def flags_enabled_by_def split: if_splits sum.splits)

lemma timing_runs_calls:
  assumes "timing_runs (recording respond) sql n log = (r, log')"
  shows "\<exists>seg. log' = log @ seg \<and> (\<forall>c \<in> set seg. snd (snd c) = None)"
  using assms
proof (induction n arbitrary: log)
  case 0
  then show ?case by simp
next
  case (Suc n)
  show ?case
  proof (cases "respond log (sql, NoopWriter, None)")
    case (Inl e)
    with Suc.prems have "log' = log @ [(sql, NoopWriter, None)]"
      by (simp add: recording_ExecuteSql)
    then show ?thesis by simp
  next
    case (Inr out)
    with Suc.prems
    have "timing_runs (recording respond) sql n (log @ [(sql, NoopWriter, None)]) = (r, log')"
      by (simp add: recording_ExecuteSql)
    from Suc.IH [OF this] obtain seg where
      "log' = (log @ [(sql, NoopWriter, None)]) @ seg" "\<forall>c \<in> set seg. snd (snd c) = None"
      by blast
    then have "log' = log @ ((sql, NoopWriter, None) # seg)
        \<and> (\<forall>c \<in> set ((sql, NoopWriter, None) # seg). snd (snd c) = None)"
      by simp
    then show ?thesis by blast
  qed
qed

lemma process_option_calls:
  assumes "process_option (recording respond) sql opt co log = (r, co', log')"
  shows "co' \<subseteq> co \<union> flags_enabled_by [opt]
       \<and> (\<exists>seg. log' = log @ seg \<and> (\<forall>c \<in> set seg. snd (snd c) = None))"
proof -
  consider (ensure) "StartsWith opt ''ensure:''"
    | (timing) "\<not> StartsWith opt ''ensure:''" "StartsWith opt ''timing''"
    | (explain) "\<not> StartsWith opt ''ensure:''" "\<not> StartsWith opt ''timing''"
        "StartsWith opt ''explain''"
    | (other) "\<not> StartsWith opt ''ensure:''" "\<not> StartsWith opt ''timing''"
        "\<not> StartsWith opt ''explain''"
    by blast
  then show ?thesis
  proof cases
    case ensure
    let ?c = "(''explain (o) '' @ sql, plan_writer, None)"
    from assms ensure have log': "log' = log @ [?c]"
      by (auto simp: process_option_def recording_ExecuteSql split: sum.splits prod.splits)
    have "co' \<subseteq> co \<union> flags_enabled_by [opt]"
      using assms ensure check_ensure_flags
      by (fastforce simp: process_option_def recording_ExecuteSql
          split: sum.splits prod.splits)
    with log' show ?thesis by simp
  next
    case timing
    show ?thesis
    proof (cases "timing_args (drop 1 (Split opt '':'')) 1 []")
      case (Inl e)
      with assms timing show ?thesis by (simp add: process_option_def)
    next
      case (Inr p)
      obtain repeat label where p: "p = (repeat, label)" by (cases p)
      obtain e l where t: "timing_runs (recording respond) sql (nat repeat) log = (e, l)"
        by (cases "timing_runs (recording respond) sql (nat repeat) log")
      from assms timing Inr p t have "co' = co" "log' = l"
        by (auto simp: process_option_def split: option.splits)
      with timing_runs_calls [OF t] show ?thesis by simp
    qed
  next
    case explain
    with assms have "co' = co"
      "log' = log @ [(explain_sql opt sql, cout_writer, None)]"
      by (auto simp: process_option_def recording_ExecuteSql split: sum.splits)
    then show ?thesis by simp
  next
    case other
    with assms show ?thesis by (simp add: process_option_def)
  qed
qed

lemma ProcessExtraOptions_calls:
  assumes "ProcessExtraOptions sql (recording respond) opts verbose co log = (r, co', log')"
  shows "co' \<subseteq> co \<union> flags_enabled_by opts
       \<and> (\<exists>seg. log' = log @ seg \<and> (\<forall>c \<in> set seg. snd (snd c) = None))"
  using assms
proof (induction opts arbitrary: co log)
  case Nil
  then show ?case by simp
next
  case (Cons opt opts)
  obtain r1 co1 log1
    where po: "process_option (recording respond) sql opt co log = (r1, co1, log1)"
    by (cases "process_option (recording respond) sql opt co log") auto
  from process_option_calls [OF po] obtain seg1 where
    c1: "co1 \<subseteq> co \<union> flags_enabled_by [opt]" and l1: "log1 = log @ seg1"
    and n1: "\<forall>c \<in> set seg1. snd (snd c) = None"
    by blast
  show ?case
  proof (cases "r1 = Inr True")
    case True
    with Cons.prems po
    have "ProcessExtraOptions sql (recording respond) opts verbose co1 log1 = (r, co', log')"
      by simp
    from Cons.IH [OF this] obtain seg2 where
      c2: "co' \<subseteq> co1 \<union> flags_enabled_by opts" and l2: "log' = log1 @ seg2"
      and n2: "\<forall>c \<in> set seg2. snd (snd c) = None"
      by blast
    from c1 c2 have "co' \<subseteq> co \<union> flags_enabled_by (opt # opts)"
      by (subst flags_enabled_by_Cons) blast
    moreover from l1 l2 n1 n2
    have "log' = log @ (seg1 @ seg2) \<and> (\<forall>c \<in> set (seg1 @ seg2). snd (snd c) = None)"
      by auto
    ultimately show ?thesis by blast
  next
    case False
    with Cons.prems po have "co' = co1" "log' = log1"
      by (auto split: sum.splits if_splits)
    with c1 l1 n1 have "co' \<subseteq> co \<union> flags_enabled_by (opt # opts)"
      and "log' = log @ seg1 \<and> (\<forall>c \<in> set seg1. snd (snd c) = None)"
      by (auto simp: flags_enabled_by_Cons [of opt opts])
    then show ?thesis by blast
  qed
qed

lemma statement_catch_session: "session (snd (statement_catch is_error ex w)) = session w"
  by (simp add: statement_catch_def)

lemma query_catch_session: "session (snd (query_catch ex w)) = session w"
  by (simp add: query_catch_def)

lemma run_record_calls:
  "\<exists>seg. session (snd (run_record (recording respond) verbose diff r w)) = session w @ seg
        \<and> (\<forall>c \<in> set seg. carries_only (flags_enabled_by (record_directives r)) c)"
proof (cases r)
  case (HaltRecord loc)
  then show ?thesis by simp
next
  case (SleepRecord loc seconds)
  then show ?thesis by simp
next
  case (StatementRecord loc is_error sql extra_options)
  obtain res co log1 where p: "ProcessExtraOptions sql (recording respond) extra_options
      verbose {} (session w) = (res, co, log1)"
    by (cases "ProcessExtraOptions sql (recording respond) extra_options verbose {}
        (session w)") auto
  from ProcessExtraOptions_calls [OF p] obtain seg where
    co: "co \<subseteq> flags_enabled_by extra_options" and l1: "log1 = session w @ seg"
    and n: "\<forall>c \<in> set seg. snd (snd c) = None"
    by auto
  let ?c = "(sql, statement_writer, Some co)"
  have "session (snd (run_record (recording respond) verbose diff r w)) = log1
      \<or> session (snd (run_record (recording respond) verbose diff r w)) = log1 @ [?c]"
    using p StatementRecord
    by (auto simp: recording_ExecuteSql statement_catch_session split: sum.splits)
  moreover have "\<forall>c \<in> set (seg @ [?c]). carries_only (flags_enabled_by extra_options) c"
    using n co by (auto simp: carries_only_def)
  moreover have "\<forall>c \<in> set seg. carries_only (flags_enabled_by extra_options) c"
    using n by (simp add: carries_only_def)
  ultimately show ?thesis
    using l1 StatementRecord by (metis append.assoc record_directives.simps(3))
next
  case (QueryRecord loc sort_mode sql expected_result extra_options)
  obtain res co log1 where p: "ProcessExtraOptions sql (recording respond) extra_options
      verbose {} (session w) = (res, co, log1)"
    by (cases "ProcessExtraOptions sql (recording respond) extra_options verbose {}
        (session w)") auto
  from ProcessExtraOptions_calls [OF p] obtain seg where
    co: "co \<subseteq> flags_enabled_by extra_options" and l1: "log1 = session w @ seg"
    and n: "\<forall>c \<in> set seg. snd (snd c) = None"
    by auto
  let ?c = "(sql, query_writer, Some co)"
  have "session (snd (run_record (recording respond) verbose diff r w)) = log1
      \<or> session (snd (run_record (recording respond) verbose diff r w)) = log1 @ [?c]"
    using p QueryRecord
    by (auto simp: recording_ExecuteSql query_catch_session split: sum.splits prod.splits)
  moreover have "\<forall>c \<in> set (seg @ [?c]). carries_only (flags_enabled_by extra_options) c"
    using n co by (auto simp: carries_only_def)
  moreover have "\<forall>c \<in> set seg. carries_only (flags_enabled_by extra_options) c"
    using n by (simp add: carries_only_def)
  ultimately show ?thesis
    using l1 QueryRecord by (metis append.assoc record_directives.simps(4))
qed

text \<open>
  Claim C9. In a run on a session that records its calls, a record \<open>r\<close> reached after
  the records \<open>before\<close> is processed by the loop body from the world they left, and
  every call the body makes for \<open>r\<close> either passes no \<open>CheckOptions\<close> (the calls of the
  directives) or passes flags that the directives of \<open>r\<close> itself enable. Whatever flags
  the records before \<open>r\<close> enabled, none of them reaches a call made for \<open>r\<close> unless a
  directive of \<open>r\<close> enables it again.
\<close>

theorem check_options_do_not_leak:
  assumes "main_loop (recording respond) (arg_verbose program) (arg_diff program) before w0
             = (None, w)"
  shows "main program (recording respond) (before @ r # rest) w0 =
           (case run_record (recording respond) (arg_verbose program) (arg_diff program) r w of
              (Some x, w') \<Rightarrow> (x, w')
            | (None, w') \<Rightarrow> run_script program (recording respond) rest w')
       \<and> (\<exists>seg. session (snd (run_record (recording respond) (arg_verbose program)
                                  (arg_diff program) r w)) = session w @ seg
                \<and> (\<forall>c \<in> set seg. carries_only (flags_enabled_by (record_directives r)) c))"
  using main_reaches [OF assms] run_record_calls
  by (simp add: run_script_Cons del: run_record.simps)

lemma Contains_TopN: "Contains ''TopN { n=1 }'' ''TopN''"
  by (simp add: Contains_def StartsWith_def)

text \<open>
  The witness of C9: the plan has a top-N node; the first statement carries
  \<open>ensure:topn\<close> and is executed with the top-N check enabled, the second carries no
  directive and is executed with an empty set of flags.
\<close>

theorem check_options_do_not_leak_witness:
  "main_loop (planner ''TopN { n=1 }'') (arg_verbose no_thresholds) (arg_diff no_thresholds)
      [StatementRecord ''t.slt:1'' False ''select a from t order by a limit 1''
         [''ensure:topn'']] fresh
     = (None, fresh\<lparr>session :=
          [(''explain (o) select a from t order by a limit 1'', plan_writer, None),
           (''select a from t order by a limit 1'', statement_writer,
            Some {ENABLE_TOPN_CHECK})]\<rparr>)
   \<and> main no_thresholds (planner ''TopN { n=1 }'')
        ([StatementRecord ''t.slt:1'' False ''select a from t order by a limit 1''
            [''ensure:topn'']] @
         StatementRecord ''t.slt:2'' False ''select 1'' [] # []) fresh
     = (Return 0, fresh\<lparr>session :=
          [(''explain (o) select a from t order by a limit 1'', plan_writer, None),
           (''select a from t order by a limit 1'', statement_writer,
            Some {ENABLE_TOPN_CHECK}),
           (''select 1'', statement_writer, Some {})]\<rparr>)
   \<and> flags_enabled_by (record_directives (StatementRecord ''t.slt:2'' False ''select 1'' []))
     = {}
   \<and> (\<exists>seg. session (snd (run_record (planner ''TopN { n=1 }'') (arg_verbose no_thresholds)
                  (arg_diff no_thresholds) (StatementRecord ''t.slt:2'' False ''select 1'' [])
                  (fresh\<lparr>session :=
                     [(''explain (o) select a from t order by a limit 1'', plan_writer, None),
                      (''select a from t order by a limit 1'', statement_writer,
                       Some {ENABLE_TOPN_CHECK})]\<rparr>)))
               = [(''explain (o) select a from t order by a limit 1'', plan_writer, None),
                  (''select a from t order by a limit 1'', statement_writer,
                   Some {ENABLE_TOPN_CHECK})] @ seg
            \<and> (\<forall>c \<in> set seg. carries_only {} c))"
proof -
  let ?c1 = "(''explain (o) select a from t order by a limit 1'', plan_writer, None)"
  let ?c2 = "(''select a from t order by a limit 1'', statement_writer,
              Some {ENABLE_TOPN_CHECK})"
  let ?c3 = "(''select 1'', statement_writer, Some {})"
  let ?s1 = "StatementRecord ''t.slt:1'' False ''select a from t order by a limit 1''
               [''ensure:topn'']"
  let ?s2 = "StatementRecord ''t.slt:2'' False ''select 1'' []"
  let ?w = "fresh\<lparr>session := [?c1, ?c2]\<rparr>"
  have reach: "main_loop (recording (\<lambda>log call. Inr ''TopN { n=1 }''))
      (arg_verbose no_thresholds) (arg_diff no_thresholds) [?s1] fresh = (None, ?w)"
    by (simp add: process_option_def StartsWith_def check_ensure_def Contains_TopN
        recording_ExecuteSql fresh_def)
  have step: "run_record (recording (\<lambda>log call. Inr ''TopN { n=1 }''))
      (arg_verbose no_thresholds) (arg_diff no_thresholds) ?s2 ?w
      = (None, fresh\<lparr>session := [?c1, ?c2, ?c3]\<rparr>)"
    by (simp add: recording_ExecuteSql fresh_def)
  have none: "flags_enabled_by (record_directives ?s2) = {}"
    by (simp add: flags_enabled_by_def)
  have sw: "session ?w = [?c1, ?c2]"
    by simp
  note t = check_options_do_not_leak [OF reach, where r = ?s2 and rest = "[]"]
  from t [THEN conjunct1]
  have run: "main no_thresholds (recording (\<lambda>log call. Inr ''TopN { n=1 }''))
      ([?s1] @ ?s2 # []) fresh = (Return 0, fresh\<lparr>session := [?c1, ?c2, ?c3]\<rparr>)"
    by (simp only: step prod.case option.case)
       (simp add: run_script_def disk_checks_no_thresholds)
  from t [THEN conjunct2]
  have calls: "\<exists>seg. session (snd (run_record (recording (\<lambda>log call. Inr ''TopN { n=1 }''))
        (arg_verbose no_thresholds) (arg_diff no_thresholds) ?s2 ?w)) = [?c1, ?c2] @ seg
      \<and> (\<forall>c \<in> set seg. carries_only {} c)"
    by (simp only: none sw)
  from reach run none calls show ?thesis
    by (simp only: planner_def simp_thms)
qed

end
